theory Spec2Isabelle
  imports Complex_Main
begin

section \<open>Customer feedback API: storage schema (models.py)\<close>

text \<open>
  The two mapped classes of models.py become records. Scores are Python floats in the
  source; a stored score is the rational number its double denotes. Arithmetic on
  scores is not exact in the source and is not exact here: Python's round works on
  binary64 values (see \<open>binary64\<close> below), and the average is the storage engine's.
  Timestamps are seconds on the storage's clock, identifiers are natural numbers.
\<close>

record product =
  p_id :: nat
  p_product_id :: string
  p_name :: string
  p_created_at :: nat

record feedback_entry =
  f_id :: nat
  f_product_id :: string
  f_score :: rat
  f_comment :: "string option"
  f_created_at :: nat

text \<open>
  The committed content of the database: both tables in insertion order, and the number
  of transactions committed so far.
\<close>

record storage =
  products :: "product list"
  feedback_entries :: "feedback_entry list"
  commits :: nat

section \<open>The query layer: a session over the storage\<close>

text \<open>
  database.py (engine, get_db) is outside the verified sources. The session it
  yields is modelled with the operations main.py calls on it: query, add, commit,
  refresh. Whether a query first flushes the pending objects (autoflush) is decided in
  database.py, so it is a parameter of every handler below. get_db is taken to yield a
  fresh session per request and to close it afterwards, which discards what was not
  committed.
\<close>

datatype exn =
    ReadError string
  | ValueError string
  | IntegrityError string
  | InvalidRequestError

text \<open>
  str(e). The repr of the offending text is the text between single quotes (a text with
  quotes or escapes in it is not modelled); the messages of the integrity error and of
  the refresh error are the library's, abbreviated to their first line.
\<close>

definition py_repr :: "string \<Rightarrow> string" where
  "py_repr t = CHR 0x27 # t @ [CHR 0x27]"

fun str_exn :: "exn \<Rightarrow> string" where
  "str_exn (ReadError m) = m"
| "str_exn (ValueError c) = ''could not convert string to float: '' @ py_repr c"
| "str_exn (IntegrityError k) = ''UNIQUE constraint failed: products.product_id''"
| "str_exn InvalidRequestError = ''Could not refresh instance''"

datatype pending =
    NewProduct string string
  | NewFeedback string rat "string option"

record session =
  s_autoflush :: bool
  s_committed :: storage
  s_view :: storage
  s_pending :: "pending list"

definition new_session :: "bool \<Rightarrow> storage \<Rightarrow> session" where
  "new_session af db =
     \<lparr>s_autoflush = af, s_committed = db, s_view = db, s_pending = []\<rparr>"

definition close :: "session \<Rightarrow> storage" where
  "close s = s_committed s"

text \<open>Integer primary keys: one more than the largest key of the table.\<close>

definition next_id :: "nat list \<Rightarrow> nat" where
  "next_id ids = Suc (fold max ids 0)"

text \<open>
  INSERT into products: the unique index on product_id rejects a second row with the
  same product_id.
\<close>

definition insert_product :: "nat \<Rightarrow> string \<Rightarrow> string \<Rightarrow> storage \<Rightarrow> exn + storage" where
  "insert_product now pid nm db =
     (if pid \<in> set (map p_product_id (products db)) then Inl (IntegrityError pid)
      else Inr (db\<lparr>products := products db @
             [\<lparr>p_id = next_id (map p_id (products db)), p_product_id = pid,
               p_name = nm, p_created_at = now\<rparr>]\<rparr>))"

text \<open>
  INSERT into feedback_entries: no check at all (the score range is not a storage
  constraint, and the foreign key is not enforced by the storage).
\<close>

definition insert_feedback ::
  "nat \<Rightarrow> string \<Rightarrow> rat \<Rightarrow> string option \<Rightarrow> storage \<Rightarrow> feedback_entry \<times> storage" where
  "insert_feedback now pid sc cm db =
     (let row = \<lparr>f_id = next_id (map f_id (feedback_entries db)), f_product_id = pid,
                 f_score = sc, f_comment = cm, f_created_at = now\<rparr>
      in (row, db\<lparr>feedback_entries := feedback_entries db @ [row]\<rparr>))"

text \<open>
  Flushing writes the pending objects into the transaction's view of the tables, in the
  order they were added, and gives back the feedback rows as persisted. The first
  rejected INSERT raises.
\<close>

fun flush_objs :: "nat \<Rightarrow> pending list \<Rightarrow> storage \<Rightarrow> exn + (feedback_entry list \<times> storage)" where
  "flush_objs now [] db = Inr ([], db)"
| "flush_objs now (NewProduct pid nm # os) db =
     (case insert_product now pid nm db of
        Inl e \<Rightarrow> Inl e
      | Inr db1 \<Rightarrow> flush_objs now os db1)"
| "flush_objs now (NewFeedback pid sc cm # os) db =
     (case insert_feedback now pid sc cm db of
        (row, db1) \<Rightarrow>
          (case flush_objs now os db1 of
             Inl e \<Rightarrow> Inl e
           | Inr (rows, db2) \<Rightarrow> Inr (row # rows, db2)))"

text \<open>A failed flush rolls the transaction back: the view is the committed state again.\<close>

definition rollback :: "session \<Rightarrow> session" where
  "rollback s = s\<lparr>s_view := s_committed s, s_pending := []\<rparr>"

definition flush :: "nat \<Rightarrow> session \<Rightarrow> (exn + feedback_entry list) \<times> session" where
  "flush now s =
     (case flush_objs now (s_pending s) (s_view s) of
        Inl e \<Rightarrow> (Inl e, rollback s)
      | Inr (rows, v) \<Rightarrow> (Inr rows, s\<lparr>s_view := v, s_pending := []\<rparr>))"

definition add :: "pending \<Rightarrow> session \<Rightarrow> session" where
  "add ob s = s\<lparr>s_pending := s_pending s @ [ob]\<rparr>"

definition commit :: "nat \<Rightarrow> session \<Rightarrow> (exn + feedback_entry list) \<times> session" where
  "commit now s =
     (case flush now s of
        (Inl e, s1) \<Rightarrow> (Inl e, s1)
      | (Inr rows, s1) \<Rightarrow>
          (let db = (s_view s1)\<lparr>commits := Suc (commits (s_committed s1))\<rparr>
           in (Inr rows, s1\<lparr>s_committed := db, s_view := db\<rparr>)))"

definition autoflush :: "nat \<Rightarrow> session \<Rightarrow> (exn + unit) \<times> session" where
  "autoflush now s =
     (if s_autoflush s then
        (case flush now s of (Inl e, s1) \<Rightarrow> (Inl e, s1) | (Inr _, s1) \<Rightarrow> (Inr (), s1))
      else (Inr (), s))"

text \<open>db.query(Product).filter(Product.product_id == pid).first()\<close>

definition query_product_first ::
  "nat \<Rightarrow> string \<Rightarrow> session \<Rightarrow> (exn + product option) \<times> session" where
  "query_product_first now pid s =
     (case autoflush now s of
        (Inl e, s1) \<Rightarrow> (Inl e, s1)
      | (Inr _, s1) \<Rightarrow>
          (Inr (find (\<lambda>p. p_product_id p = pid) (products (s_view s1))), s1))"

text \<open>db.query(FeedbackEntry).all() and db.query(FeedbackEntry).filter(...).all()\<close>

definition query_feedback_all ::
  "nat \<Rightarrow> session \<Rightarrow> (exn + feedback_entry list) \<times> session" where
  "query_feedback_all now s =
     (case autoflush now s of
        (Inl e, s1) \<Rightarrow> (Inl e, s1)
      | (Inr _, s1) \<Rightarrow> (Inr (feedback_entries (s_view s1)), s1))"

definition query_feedback_by_product ::
  "nat \<Rightarrow> string \<Rightarrow> session \<Rightarrow> (exn + feedback_entry list) \<times> session" where
  "query_feedback_by_product now pid s =
     (case autoflush now s of
        (Inl e, s1) \<Rightarrow> (Inl e, s1)
      | (Inr _, s1) \<Rightarrow>
          (Inr (filter (\<lambda>f. f_product_id f = pid) (feedback_entries (s_view s1))), s1))"

text \<open>db.refresh(obj): read the row again by its primary key.\<close>

definition refresh :: "feedback_entry \<Rightarrow> session \<Rightarrow> exn + feedback_entry" where
  "refresh row s =
     (case find (\<lambda>f. f_id f = f_id row) (feedback_entries (s_view s)) of
        None \<Rightarrow> Inl InvalidRequestError
      | Some r \<Rightarrow> Inr r)"

text \<open>
  SELECT product_id, avg(score), count(id) FROM feedback_entries GROUP BY product_id.
  The table is scanned in storage order; each row is fed to the aggregates of its key,
  the keys in order of first appearance. count(id) is the number of rows fed (id is
  never NULL). avg(score) is computed by the engine in double precision, and engines
  differ in how they add (SQLite from 3.44 on compensates the rounding errors of the
  sum, older versions and other engines do not), so the engine's avg is a parameter
  \<open>avg\<close> of the query: a function of the scores in the order they are fed.
\<close>

fun agg_step :: "(string \<times> rat list) list \<Rightarrow> feedback_entry \<Rightarrow> (string \<times> rat list) list" where
  "agg_step [] f = [(f_product_id f, [f_score f])]"
| "agg_step ((k, xs) # gs) f =
     (if k = f_product_id f then (k, xs @ [f_score f]) # gs
      else (k, xs) # agg_step gs f)"

definition group_avg_count ::
  "(rat list \<Rightarrow> rat) \<Rightarrow> feedback_entry list \<Rightarrow> (string \<times> rat \<times> nat) list" where
  "group_avg_count avg rows =
     map (\<lambda>(k, xs). (k, avg xs, length xs)) (foldl agg_step [] rows)"

definition query_averages ::
  "(rat list \<Rightarrow> rat) \<Rightarrow> nat \<Rightarrow> session
     \<Rightarrow> (exn + (string \<times> rat \<times> nat) list) \<times> session" where
  "query_averages avg now s =
     (case autoflush now s of
        (Inl e, s1) \<Rightarrow> (Inl e, s1)
      | (Inr _, s1) \<Rightarrow> (Inr (group_avg_count avg (feedback_entries (s_view s1))), s1))"

section \<open>Request and response schemas (main.py, lines 18 to 37)\<close>

text \<open>
  The JSON body of POST /feedback/ before validation: each field may be absent. A body
  whose fields have the wrong JSON type is outside the model.
\<close>

record feedback_body =
  b_product_id :: "string option"
  b_score :: "rat option"
  b_comment :: "string option"

record feedback_create =
  fc_product_id :: string
  fc_score :: rat
  fc_comment :: "string option"

record product_average =
  pa_product_id :: string
  pa_average_score :: rat
  pa_feedback_count :: nat

datatype verr = Missing string | GreaterThanEqual string | LessThanEqual string

text \<open>
  FeedbackCreate: product_id and score are required, score carries
  Field(..., ge=1.0, le=5.0), comment defaults to None.
\<close>

definition score_errors :: "rat option \<Rightarrow> verr list" where
  "score_errors sc =
     (case sc of
        None \<Rightarrow> [Missing ''score'']
      | Some x \<Rightarrow>
          (if \<not> x \<ge> 1 then [GreaterThanEqual ''score'']
           else if \<not> x \<le> 5 then [LessThanEqual ''score'']
           else []))"

definition validate :: "feedback_body \<Rightarrow> verr list + feedback_create" where
  "validate b =
     (case (b_product_id b, b_score b) of
        (Some pid, Some x) \<Rightarrow>
          (if score_errors (Some x) = [] then
             Inr \<lparr>fc_product_id = pid, fc_score = x, fc_comment = b_comment b\<rparr>
           else Inl (score_errors (Some x)))
      | (Some pid, None) \<Rightarrow> Inl (score_errors None)
      | (None, sc) \<Rightarrow> Inl (Missing ''product_id'' # score_errors sc))"

text \<open>
  What a handler raises: an HTTPException with status code and detail, or an exception
  nobody handles (the framework answers 500).
\<close>

datatype failure = HTTPException nat string | Unhandled exn

section \<open>Python helpers\<close>

text \<open>str(n) of a non-negative integer, as the f-string of upload_csv_data formats it.\<close>

definition digit_char :: "nat \<Rightarrow> char" where
  "digit_char d = ''0123456789'' ! d"

fun str_nat :: "nat \<Rightarrow> string" where
  "str_nat n = (if n < 10 then [digit_char n] else str_nat (n div 10) @ [digit_char (n mod 10)])"

text \<open>Rounding to the nearest integer, a tie going to the even one.\<close>

definition round_half_even :: "rat \<Rightarrow> int" where
  "round_half_even x =
     (let fl = \<lfloor>x\<rfloor>; d = x - of_int fl
      in if d < 1 / 2 then fl
         else if 1 / 2 < d then fl + 1
         else if even fl then fl else fl + 1)"

text \<open>
  A Python float is an IEEE 754 binary64 number. \<open>binary64 x\<close> is the double nearest
  to the real number x, a tie going to the even significand: x is scaled so that its
  integer part has 53 bits, rounded, and scaled back. Overflow to infinity, subnormal
  numbers, infinities and NaN are not modelled.
\<close>

definition pow2 :: "int \<Rightarrow> rat" where
  "pow2 e = (if 0 \<le> e then 2 ^ nat e else 1 / 2 ^ nat (- e))"

function ilog2 :: "int \<Rightarrow> int" where
  "ilog2 n = (if n < 2 then 0 else 1 + ilog2 (n div 2))"
  by pat_completeness auto
termination
  by (relation "measure nat") auto

text \<open>The largest k with 2 ^ k at most x, for a positive x.\<close>

definition floorlog2 :: "rat \<Rightarrow> int" where
  "floorlog2 x =
     (case quotient_of x of
        (p, q) \<Rightarrow>
          (let k = ilog2 p - ilog2 q
           in if pow2 k \<le> x then k else k - 1))"

definition binary64 :: "rat \<Rightarrow> rat" where
  "binary64 x =
     (if x = 0 then 0
      else (let e = floorlog2 \<bar>x\<bar> - 52
            in of_int (round_half_even (x / pow2 e)) * pow2 e))"

text \<open>
  round(x, 2) on a float x: the exact value of x is rounded to two decimal places, a
  tie going to the even digit, and the decimal result is converted to the nearest
  double.
\<close>

definition round2 :: "rat \<Rightarrow> rat" where
  "round2 x = binary64 (of_int (round_half_even (x * 100)) / 100)"

section \<open>The CSV file as pandas reads it\<close>

text \<open>
  pd.read_csv either raises (file missing, unreadable, no header) with a message, or
  gives the data rows. A score cell is a number, or text on which float() raises
  ValueError. An empty comment cell is None.
\<close>

datatype cell = Num rat | NotNum string

record csv_row =
  row_product_id :: string
  row_score :: cell
  row_comment :: "string option"

fun py_float :: "cell \<Rightarrow> exn + rat" where
  "py_float (Num x) = Inr x"
| "py_float (NotNum t) = Inl (ValueError t)"

section \<open>Route handlers (main.py, lines 39 to 128)\<close>

definition home :: "(string \<times> string) list" where
  "home = [(''message'', ''Feedback API is running!''), (''docs'', ''/docs'')]"

text \<open>
  create_feedback. Other requests may commit to the same database while the handler
  runs: \<open>env\<close> is what they do to the tables between the lookup of the product and the
  first write (lines 48 to 50), \<open>env'\<close> what they do after the product has been
  committed and before the feedback row is added (lines 53 to 61). Both are the identity
  when the request runs alone. db_feedback is the row the second commit wrote; a commit
  that wrote no feedback row cannot happen here and is answered like a failed refresh.
\<close>

definition interfere :: "(storage \<Rightarrow> storage) \<Rightarrow> session \<Rightarrow> session" where
  "interfere env s = s\<lparr>s_committed := env (s_committed s), s_view := env (s_view s)\<rparr>"

definition create_feedback_steps ::
  "(storage \<Rightarrow> storage) \<Rightarrow> (storage \<Rightarrow> storage) \<Rightarrow> bool \<Rightarrow> nat \<Rightarrow> feedback_create
     \<Rightarrow> storage \<Rightarrow> (failure + feedback_entry) \<times> storage" where
  "create_feedback_steps env env' af now feedback db =
     (case query_product_first now (fc_product_id feedback) (new_session af db) of
        (Inl e, s1) \<Rightarrow> (Inl (Unhandled e), close s1)
      | (Inr product, s1) \<Rightarrow>
          (case (if product = None then
                   commit now
                     (add (NewProduct (fc_product_id feedback)
                             (''Product '' @ fc_product_id feedback))
                        (interfere env s1))
                 else (Inr [], interfere env s1)) of
             (Inl e, s2) \<Rightarrow> (Inl (Unhandled e), close s2)
           | (Inr _, s2) \<Rightarrow>
               (case commit now
                       (add (NewFeedback (fc_product_id feedback) (fc_score feedback)
                               (fc_comment feedback)) (interfere env' s2)) of
                  (Inl e, s3) \<Rightarrow> (Inl (Unhandled e), close s3)
                | (Inr [], s3) \<Rightarrow> (Inl (Unhandled InvalidRequestError), close s3)
                | (Inr (db_feedback # _), s3) \<Rightarrow>
                    (case refresh db_feedback s3 of
                       Inl e \<Rightarrow> (Inl (Unhandled e), close s3)
                     | Inr r \<Rightarrow> (Inr r, close s3)))))"

definition create_feedback_env ::
  "(storage \<Rightarrow> storage) \<Rightarrow> bool \<Rightarrow> nat \<Rightarrow> feedback_create \<Rightarrow> storage
     \<Rightarrow> (failure + feedback_entry) \<times> storage" where
  "create_feedback_env env = create_feedback_steps env id"

definition create_feedback ::
  "bool \<Rightarrow> nat \<Rightarrow> feedback_create \<Rightarrow> storage \<Rightarrow> (failure + feedback_entry) \<times> storage" where
  "create_feedback = create_feedback_env id"

definition get_all_feedback ::
  "bool \<Rightarrow> nat \<Rightarrow> storage \<Rightarrow> (failure + feedback_entry list) \<times> storage" where
  "get_all_feedback af now db =
     (case query_feedback_all now (new_session af db) of
        (Inl e, s1) \<Rightarrow> (Inl (Unhandled e), close s1)
      | (Inr feedback, s1) \<Rightarrow> (Inr feedback, close s1))"

definition get_product_averages ::
  "(rat list \<Rightarrow> rat) \<Rightarrow> bool \<Rightarrow> nat \<Rightarrow> storage
     \<Rightarrow> (failure + product_average list) \<times> storage" where
  "get_product_averages avg af now db =
     (case query_averages avg now (new_session af db) of
        (Inl e, s1) \<Rightarrow> (Inl (Unhandled e), close s1)
      | (Inr results, s1) \<Rightarrow>
          (Inr (map (\<lambda>(pid, average_score, feedback_count).
                       \<lparr>pa_product_id = pid,
                        pa_average_score = round2 average_score,
                        pa_feedback_count = feedback_count\<rparr>) results),
           close s1))"

definition get_feedback_by_product ::
  "bool \<Rightarrow> nat \<Rightarrow> string \<Rightarrow> storage \<Rightarrow> (failure + feedback_entry list) \<times> storage" where
  "get_feedback_by_product af now product_id db =
     (case query_feedback_by_product now product_id (new_session af db) of
        (Inl e, s1) \<Rightarrow> (Inl (Unhandled e), close s1)
      | (Inr feedback, s1) \<Rightarrow>
          (if feedback = [] then
             (Inl (HTTPException 404 ''No feedback found for this product''), close s1)
           else (Inr feedback, close s1)))"

text \<open>The loop of upload_csv_data over df.iterrows(), with created_count.\<close>

fun upload_rows :: "nat \<Rightarrow> csv_row list \<Rightarrow> nat \<Rightarrow> session \<Rightarrow> (exn + nat) \<times> session" where
  "upload_rows now [] created_count s = (Inr created_count, s)"
| "upload_rows now (row # rows) created_count s =
     (case query_product_first now (row_product_id row) s of
        (Inl e, s1) \<Rightarrow> (Inl e, s1)
      | (Inr product, s1) \<Rightarrow>
          (let s2 = (if product = None then
                       add (NewProduct (row_product_id row)
                              (''Product '' @ row_product_id row)) s1
                     else s1)
           in case py_float (row_score row) of
                Inl e \<Rightarrow> (Inl e, s2)
              | Inr sc \<Rightarrow>
                  upload_rows now rows (created_count + 1)
                    (add (NewFeedback (row_product_id row) sc (row_comment row)) s2)))"

text \<open>The body of the try block.\<close>

definition upload_try ::
  "nat \<Rightarrow> exn + csv_row list \<Rightarrow> session \<Rightarrow> (exn + (string \<times> string) list) \<times> session" where
  "upload_try now csv s =
     (case csv of
        Inl e \<Rightarrow> (Inl e, s)
      | Inr df \<Rightarrow>
          (case upload_rows now df 0 s of
             (Inl e, s1) \<Rightarrow> (Inl e, s1)
           | (Inr created_count, s1) \<Rightarrow>
               (case commit now s1 of
                  (Inl e, s2) \<Rightarrow> (Inl e, s2)
                | (Inr _, s2) \<Rightarrow>
                    (Inr [(''message'',
                           ''Successfully imported '' @ str_nat created_count
                             @ '' feedback entries'')], s2))))"

definition upload_csv_data ::
  "bool \<Rightarrow> nat \<Rightarrow> exn + csv_row list \<Rightarrow> storage
     \<Rightarrow> (failure + (string \<times> string) list) \<times> storage" where
  "upload_csv_data af now csv db =
     (case upload_try now csv (new_session af db) of
        (Inl e, s) \<Rightarrow> (Inl (HTTPException 400 (''Error processing CSV: '' @ str_exn e)), close s)
      | (Inr r, s) \<Rightarrow> (Inr r, close s))"

section \<open>The application: routing and request validation\<close>

datatype request =
    GET_home
  | POST_feedback feedback_body
  | GET_feedback
  | GET_feedback_averages
  | GET_feedback_product string
  | POST_upload_csv "exn + csv_row list"

datatype response =
    Json_dict "(string \<times> string) list"
  | Json_feedback feedback_entry
  | Json_feedback_list "feedback_entry list"
  | Json_averages "product_average list"
  | Validation_error "verr list"
  | Http_error nat string
  | Server_error

fun respond :: "('a \<Rightarrow> response) \<Rightarrow> (failure + 'a) \<times> storage \<Rightarrow> response \<times> storage" where
  "respond ok (Inr x, db) = (ok x, db)"
| "respond ok (Inl (HTTPException code detail), db) = (Http_error code detail, db)"
| "respond ok (Inl (Unhandled e), db) = (Server_error, db)"

fun app ::
  "(rat list \<Rightarrow> rat) \<Rightarrow> bool \<Rightarrow> nat \<Rightarrow> request \<Rightarrow> storage \<Rightarrow> response \<times> storage" where
  "app avg af now GET_home db = (Json_dict home, db)"
| "app avg af now (POST_feedback body) db =
     (case validate body of
        Inl errs \<Rightarrow> (Validation_error errs, db)
      | Inr feedback \<Rightarrow> respond Json_feedback (create_feedback af now feedback db))"
| "app avg af now GET_feedback db = respond Json_feedback_list (get_all_feedback af now db)"
| "app avg af now GET_feedback_averages db =
     respond Json_averages (get_product_averages avg af now db)"
| "app avg af now (GET_feedback_product pid) db =
     respond Json_feedback_list (get_feedback_by_product af now pid db)"
| "app avg af now (POST_upload_csv csv) db =
     respond Json_dict (upload_csv_data af now csv db)"

fun status_code :: "response \<Rightarrow> nat" where
  "status_code (Validation_error _) = 422"
| "status_code (Http_error code _) = code"
| "status_code Server_error = 500"
| "status_code _ = 200"

section \<open>Notions used in the statements\<close>

text \<open>The rows a handler inserts into storage \<open>db\<close> at time \<open>now\<close>.\<close>

definition new_feedback_row :: "nat \<Rightarrow> string \<Rightarrow> rat \<Rightarrow> string option \<Rightarrow> storage \<Rightarrow> feedback_entry" where
  "new_feedback_row now pid sc cm db =
     \<lparr>f_id = next_id (map f_id (feedback_entries db)), f_product_id = pid,
      f_score = sc, f_comment = cm, f_created_at = now\<rparr>"

definition new_product_row :: "nat \<Rightarrow> string \<Rightarrow> storage \<Rightarrow> product" where
  "new_product_row now pid db =
     \<lparr>p_id = next_id (map p_id (products db)), p_product_id = pid,
      p_name = ''Product '' @ pid, p_created_at = now\<rparr>"

definition product_ids :: "storage \<Rightarrow> string list" where
  "product_ids db = map p_product_id (products db)"

definition feedback_of :: "string \<Rightarrow> storage \<Rightarrow> feedback_entry list" where
  "feedback_of pid db = filter (\<lambda>f. f_product_id f = pid) (feedback_entries db)"




text \<open>
  An engine that adds the scores one after the other in binary64 and divides the sum by
  the count. For two scores every IEEE 754 engine computes this value, one that
  compensates the rounding errors of the sum included.
\<close>

definition avg_binary64 :: "rat list \<Rightarrow> rat" where
  "avg_binary64 xs =
     binary64 (foldl (\<lambda>sm x. binary64 (sm + x)) 0 xs / of_nat (length xs))"

text \<open>
  A feedback row seen as the CSV row it was imported from, the CSV rows of the feedback
  objects still pending in a session, and the rows a session holds in all: those
  written to its view followed by those pending.
\<close>

definition row_of :: "feedback_entry \<Rightarrow> csv_row" where
  "row_of f = \<lparr>row_product_id = f_product_id f, row_score = Num (f_score f),
              row_comment = f_comment f\<rparr>"

fun pending_rows :: "pending list \<Rightarrow> csv_row list" where
  "pending_rows [] = []"
| "pending_rows (NewProduct pid nm # os) = pending_rows os"
| "pending_rows (NewFeedback pid sc cm # os) =
     \<lparr>row_product_id = pid, row_score = Num sc, row_comment = cm\<rparr> # pending_rows os"

definition logical :: "session \<Rightarrow> csv_row list" where
  "logical s = map row_of (feedback_entries (s_view s)) @ pending_rows (s_pending s)"

text \<open>Whether the pending objects of a session can be written to its view.\<close>

definition flushable :: "nat \<Rightarrow> session \<Rightarrow> bool" where
  "flushable now s =
     (case flush_objs now (s_pending s) (s_view s) of Inl e \<Rightarrow> False | Inr res \<Rightarrow> True)"

text \<open>
  What a concurrent request that creates a product does to the database while
  create_feedback runs: it commits one more Product row.
\<close>

definition concurrent_insert :: "product \<Rightarrow> storage \<Rightarrow> storage" where
  "concurrent_insert p db = db\<lparr>products := products db @ [p], commits := Suc (commits db)\<rparr>"

section \<open>Properties of the session\<close>

lemma autoflush_new_session:
  "autoflush now (new_session af db) = (Inr (), new_session af db)"
  by (simp add: autoflush_def flush_def new_session_def)

lemma next_id_fresh: "i \<in> set ids \<Longrightarrow> i < next_id ids"
proof -
  assume a: "i \<in> set ids"
  have "fold max ids 0 = Max (set (0 # ids))" by (simp only: Max.set_eq_fold)
  moreover have "i \<le> Max (set (0 # ids))" using a by (intro Max_ge) auto
  ultimately show ?thesis by (simp add: next_id_def)
qed

lemma find_append_cases:
  "find P (xs @ ys) = (case find P xs of None \<Rightarrow> find P ys | Some x \<Rightarrow> Some x)"
  by (induction xs) simp_all

lemma find_fresh_id:
  assumes "f_id row = next_id (map f_id rows)"
  shows "find (\<lambda>f. f_id f = next_id (map f_id rows)) (rows @ [row]) = Some row"
proof -
  have "\<not> (\<exists>x. x \<in> set rows \<and> f_id x = next_id (map f_id rows))"
    using next_id_fresh [of _ "map f_id rows"] by fastforce
  then have "find (\<lambda>f. f_id f = next_id (map f_id rows)) rows = None"
    by (simp add: find_None_iff)
  then show ?thesis using assms by (simp add: find_append_cases)
qed

lemma query_product_first_new:
  "query_product_first now pid (new_session af db) =
     (Inr (find (\<lambda>p. p_product_id p = pid) (products db)), new_session af db)"
  by (simp add: query_product_first_def autoflush_new_session) (simp add: new_session_def)

lemma commit_feedback_clean:
  "s_pending s = [] \<Longrightarrow> s_view s = s_committed s \<Longrightarrow>
   commit now (add (NewFeedback pid sc cm) s) =
     (let row = new_feedback_row now pid sc cm (s_view s);
          db = (s_view s)\<lparr>feedback_entries := feedback_entries (s_view s) @ [row],
                          commits := Suc (commits (s_view s))\<rparr>
      in (Inr [row], s\<lparr>s_committed := db, s_view := db, s_pending := []\<rparr>))"
  by (simp add: commit_def flush_def add_def insert_feedback_def Let_def new_feedback_row_def)

lemma commit_product_clean:
  "s_pending s = [] \<Longrightarrow> s_view s = s_committed s \<Longrightarrow>
   commit now (add (NewProduct pid nm) s) =
     (if pid \<in> set (map p_product_id (products (s_view s)))
      then (Inl (IntegrityError pid), s\<lparr>s_pending := []\<rparr>)
      else
        (let row = \<lparr>p_id = next_id (map p_id (products (s_view s))), p_product_id = pid,
                    p_name = nm, p_created_at = now\<rparr>;
             db = (s_view s)\<lparr>products := products (s_view s) @ [row],
                              commits := Suc (commits (s_view s))\<rparr>
         in (Inr [], s\<lparr>s_committed := db, s_view := db, s_pending := []\<rparr>)))"
  by (simp add: commit_def flush_def add_def insert_product_def Let_def rollback_def)

section \<open>Properties of flushing\<close>

lemma pending_rows_append: "pending_rows (xs @ ys) = pending_rows xs @ pending_rows ys"
  by (induction xs rule: pending_rows.induct) simp_all

lemma insert_product_Inr:
  assumes "insert_product now pid nm v = Inr db1"
  shows "feedback_entries db1 = feedback_entries v" and "commits db1 = commits v"
    and "pid \<notin> set (product_ids v)" and "product_ids db1 = product_ids v @ [pid]"
proof -
  from assms have n: "pid \<notin> set (map p_product_id (products v))"
    by (cases "pid \<in> set (map p_product_id (products v))") (simp_all add: insert_product_def)
  with assms have e: "db1 = v\<lparr>products := products v @
             [\<lparr>p_id = next_id (map p_id (products v)), p_product_id = pid,
               p_name = nm, p_created_at = now\<rparr>]\<rparr>"
    by (simp add: insert_product_def)
  show "feedback_entries db1 = feedback_entries v" by (simp add: e)
  show "commits db1 = commits v" by (simp add: e)
  show "pid \<notin> set (product_ids v)" using n by (simp add: product_ids_def)
  show "product_ids db1 = product_ids v @ [pid]" by (simp add: e product_ids_def)
qed

lemma insert_feedback_facts:
  "feedback_entries (snd (insert_feedback now pid sc cm v))
     = feedback_entries v @ [fst (insert_feedback now pid sc cm v)]"
  "commits (snd (insert_feedback now pid sc cm v)) = commits v"
  "products (snd (insert_feedback now pid sc cm v)) = products v"
  "row_of (fst (insert_feedback now pid sc cm v))
     = \<lparr>row_product_id = pid, row_score = Num sc, row_comment = cm\<rparr>"
  by (simp_all add: insert_feedback_def Let_def row_of_def)

lemma flush_objs_feedback:
  "flush_objs now ps v = Inr (fr, V) \<Longrightarrow>
     feedback_entries V = feedback_entries v @ fr \<and> map row_of fr = pending_rows ps
     \<and> commits V = commits v"
proof (induction ps arbitrary: v fr V)
  case Nil
  then show ?case by simp
next
  case (Cons ob os)
  show ?case
  proof (cases ob)
    case (NewProduct pid nm)
    show ?thesis
    proof (cases "insert_product now pid nm v")
      case (Inl e)
      with Cons.prems NewProduct show ?thesis by simp
    next
      case (Inr db1)
      with Cons.prems NewProduct have "flush_objs now os db1 = Inr (fr, V)" by simp
      from Cons.IH [OF this] insert_product_Inr(1,2) [OF Inr] NewProduct
      show ?thesis by simp
    qed
  next
    case (NewFeedback pid sc cm)
    obtain row db1 where i: "insert_feedback now pid sc cm v = (row, db1)"
      by (cases "insert_feedback now pid sc cm v")
    show ?thesis
    proof (cases "flush_objs now os db1")
      case (Inl e)
      with Cons.prems NewFeedback i show ?thesis by simp
    next
      case (Inr res)
      obtain rows db2 where res: "res = (rows, db2)" by (cases res)
      with Cons.prems NewFeedback i Inr have fr: "fr = row # rows" and V: "db2 = V" by simp_all
      from Inr res V have "flush_objs now os db1 = Inr (rows, V)" by simp
      from Cons.IH [OF this] insert_feedback_facts [of now pid sc cm v] i fr NewFeedback
      show ?thesis by simp
    qed
  qed
qed

lemma flush_objs_distinct:
  "flush_objs now ps v = Inr (fr, V) \<Longrightarrow> distinct (product_ids v) \<Longrightarrow> distinct (product_ids V)"
proof (induction ps arbitrary: v fr V)
  case Nil
  then show ?case by simp
next
  case (Cons ob os)
  show ?case
  proof (cases ob)
    case (NewProduct pid nm)
    show ?thesis
    proof (cases "insert_product now pid nm v")
      case (Inl e)
      with Cons.prems NewProduct show ?thesis by simp
    next
      case (Inr db1)
      with Cons.prems NewProduct have f: "flush_objs now os db1 = Inr (fr, V)" by simp
      from insert_product_Inr(3,4) [OF Inr] Cons.prems(2)
      have "distinct (product_ids db1)" by simp
      from Cons.IH [OF f this] show ?thesis .
    qed
  next
    case (NewFeedback pid sc cm)
    obtain row db1 where i: "insert_feedback now pid sc cm v = (row, db1)"
      by (cases "insert_feedback now pid sc cm v")
    show ?thesis
    proof (cases "flush_objs now os db1")
      case (Inl e)
      with Cons.prems NewFeedback i show ?thesis by simp
    next
      case (Inr res)
      obtain rows db2 where res: "res = (rows, db2)" by (cases res)
      with Cons.prems NewFeedback i Inr have V: "db2 = V" by simp
      from Inr res V have f: "flush_objs now os db1 = Inr (rows, V)" by simp
      from insert_feedback_facts(3) [of now pid sc cm v] i Cons.prems(2)
      have "distinct (product_ids db1)" by (simp add: product_ids_def)
      from Cons.IH [OF f this] show ?thesis .
    qed
  qed
qed

lemma flush_cases:
  obtains (fail) e where "flush now s = (Inl e, rollback s)"
      and "flush_objs now (s_pending s) (s_view s) = Inl e"
    | (ok) fr V where "flush now s = (Inr fr, s\<lparr>s_view := V, s_pending := []\<rparr>)"
      and "flush_objs now (s_pending s) (s_view s) = Inr (fr, V)"
proof (cases "flush_objs now (s_pending s) (s_view s)")
  case (Inl e)
  then have "flush now s = (Inl e, rollback s)" by (simp add: flush_def)
  with Inl show ?thesis by (rule fail [rotated])
next
  case (Inr res)
  obtain fr V where res: "res = (fr, V)" by (cases res)
  with Inr have "flush now s = (Inr fr, s\<lparr>s_view := V, s_pending := []\<rparr>)"
    by (simp add: flush_def)
  moreover from Inr res have "flush_objs now (s_pending s) (s_view s) = Inr (fr, V)" by simp
  ultimately show ?thesis by (rule ok)
qed

lemma flush_committed: "s_committed (snd (flush now s)) = s_committed s"
  by (cases rule: flush_cases [of now s]) (simp_all add: rollback_def)

lemma flush_autoflush: "s_autoflush (snd (flush now s)) = s_autoflush s"
  by (cases rule: flush_cases [of now s]) (simp_all add: rollback_def)

lemma flush_ok:
  assumes "flush now s = (Inr fr, s1)"
  shows "logical s1 = logical s" and "s_pending s1 = []"
    and "feedback_entries (s_view s1) = feedback_entries (s_view s) @ fr"
    and "commits (s_view s1) = commits (s_view s)"
    and "distinct (product_ids (s_view s)) \<Longrightarrow> distinct (product_ids (s_view s1))"
    and "map row_of fr = pending_rows (s_pending s)"
    and "flush_objs now (s_pending s) (s_view s) = Inr (fr, s_view s1)"
proof -
  from assms obtain V where f: "flush_objs now (s_pending s) (s_view s) = Inr (fr, V)"
    and s1: "s1 = s\<lparr>s_view := V, s_pending := []\<rparr>"
    by (cases rule: flush_cases [of now s]) simp_all
  from flush_objs_feedback [OF f] s1
  show "logical s1 = logical s" and "s_pending s1 = []"
    and "feedback_entries (s_view s1) = feedback_entries (s_view s) @ fr"
    and "commits (s_view s1) = commits (s_view s)"
    and "map row_of fr = pending_rows (s_pending s)"
    by (simp_all add: logical_def)
  show "distinct (product_ids (s_view s)) \<Longrightarrow> distinct (product_ids (s_view s1))"
    using flush_objs_distinct [OF f] s1 by simp
  show "flush_objs now (s_pending s) (s_view s) = Inr (fr, s_view s1)"
    using f s1 by simp
qed

lemma autoflush_committed: "s_committed (snd (autoflush now s)) = s_committed s"
proof (cases "flush now s")
  case (Pair r s1)
  with flush_committed [of now s] show ?thesis
    by (cases r) (simp_all add: autoflush_def)
qed

lemma autoflush_autoflush: "s_autoflush (snd (autoflush now s)) = s_autoflush s"
proof (cases "flush now s")
  case (Pair r s1)
  with flush_autoflush [of now s] show ?thesis
    by (cases r) (simp_all add: autoflush_def)
qed

lemma query_product_first_committed:
  "s_committed (snd (query_product_first now pid s)) = s_committed s"
proof (cases "autoflush now s")
  case (Pair r s1)
  with autoflush_committed [of now s] show ?thesis
    by (cases r) (simp_all add: query_product_first_def)
qed

lemma query_product_first_autoflush:
  "s_autoflush (snd (query_product_first now pid s)) = s_autoflush s"
proof (cases "autoflush now s")
  case (Pair r s1)
  with autoflush_autoflush [of now s] show ?thesis
    by (cases r) (simp_all add: query_product_first_def)
qed

lemma autoflush_cases:
  assumes "autoflush now s = (Inr u, s1)"
  shows "(\<not> s_autoflush s \<and> s1 = s) \<or> (s_autoflush s \<and> (\<exists>fr. flush now s = (Inr fr, s1)))"
proof (cases "s_autoflush s")
  case False
  with assms show ?thesis by (simp add: autoflush_def)
next
  case True
  obtain r s' where f: "flush now s = (r, s')" by (cases "flush now s")
  with assms True show ?thesis by (cases r) (simp_all add: autoflush_def)
qed

lemma query_product_first_cases:
  assumes "query_product_first now pid s = (Inr p, s1)"
  shows "p = find (\<lambda>p. p_product_id p = pid) (products (s_view s1))"
    and "(\<not> s_autoflush s \<and> s1 = s) \<or> (s_autoflush s \<and> (\<exists>fr. flush now s = (Inr fr, s1)))"
proof -
  obtain r s' where a: "autoflush now s = (r, s')" by (cases "autoflush now s")
  show "p = find (\<lambda>p. p_product_id p = pid) (products (s_view s1))"
    using assms a by (cases r) (auto simp: query_product_first_def)
  have "autoflush now s = (Inr (), s1)"
    using assms a by (cases r) (auto simp: query_product_first_def)
  from autoflush_cases [OF this]
  show "(\<not> s_autoflush s \<and> s1 = s) \<or> (s_autoflush s \<and> (\<exists>fr. flush now s = (Inr fr, s1)))" .
qed

lemma query_product_first_ok:
  assumes "query_product_first now pid s = (Inr p, s1)"
  shows "logical s1 = logical s"
    and "\<exists>new. feedback_entries (s_view s1) = feedback_entries (s_view s) @ new"
    and "commits (s_view s1) = commits (s_view s)"
    and "distinct (product_ids (s_view s)) \<Longrightarrow> distinct (product_ids (s_view s1))"
proof -
  from query_product_first_cases(2) [OF assms]
  consider "s1 = s" | fr where "flush now s = (Inr fr, s1)" by blast
  then show "logical s1 = logical s"
    by cases (simp_all add: flush_ok(1))
  from query_product_first_cases(2) [OF assms]
  consider "s1 = s" | fr where "flush now s = (Inr fr, s1)" by blast
  then show "\<exists>new. feedback_entries (s_view s1) = feedback_entries (s_view s) @ new"
    by cases (simp_all add: flush_ok(3))
  from query_product_first_cases(2) [OF assms]
  consider "s1 = s" | fr where "flush now s = (Inr fr, s1)" by blast
  then show "commits (s_view s1) = commits (s_view s)"
    by cases (simp_all add: flush_ok(4))
  assume d: "distinct (product_ids (s_view s))"
  from query_product_first_cases(2) [OF assms]
  consider "s1 = s" | fr where "flush now s = (Inr fr, s1)" by blast
  then show "distinct (product_ids (s_view s1))"
    using d by cases (simp_all add: flush_ok(5))
qed

lemma add_simps:
  "s_committed (add ob s) = s_committed s" "s_view (add ob s) = s_view s"
  "s_autoflush (add ob s) = s_autoflush s" "s_pending (add ob s) = s_pending s @ [ob]"
  by (simp_all add: add_def)

lemma logical_add_product: "logical (add (NewProduct pid nm) s) = logical s"
  by (simp add: logical_def add_simps pending_rows_append)

lemma logical_add_feedback:
  "logical (add (NewFeedback pid sc cm) s) =
     logical s @ [\<lparr>row_product_id = pid, row_score = Num sc, row_comment = cm\<rparr>]"
  by (simp add: logical_def add_simps pending_rows_append)

section \<open>Properties of the import loop\<close>

lemma csv_row_eq:
  "row_score row = Num sc \<Longrightarrow>
   \<lparr>row_product_id = row_product_id row, row_score = Num sc, row_comment = row_comment row\<rparr> = row"
  by (cases row) simp

lemma py_float_Inr: "py_float c = Inr sc \<Longrightarrow> c = Num sc"
  by (cases c) simp_all

lemma upload_rows_committed:
  "s_committed (snd (upload_rows now rows cnt s)) = s_committed s"
proof (induction rows arbitrary: cnt s)
  case Nil
  then show ?case by simp
next
  case (Cons row rows)
  show ?case
  proof (cases "query_product_first now (row_product_id row) s")
    case (Pair r s1)
    with query_product_first_committed [of now "row_product_id row" s]
    have c: "s_committed s1 = s_committed s" by simp
    show ?thesis
    proof (cases r)
      case (Inl e)
      with Pair c show ?thesis by simp
    next
      case (Inr p)
      show ?thesis
      proof (cases "py_float (row_score row)")
        case (Inl e)
        with Pair Inr c show ?thesis by (simp add: add_simps)
      next
        case (Inr sc)
        with Pair \<open>r = Inr p\<close> c show ?thesis
          by (simp add: add_simps Cons.IH)
      qed
    qed
  qed
qed

lemma upload_rows_Cons_Inr:
  assumes "upload_rows now (row # rows) cnt s = (Inr n, s')"
  obtains p s1 sc where "query_product_first now (row_product_id row) s = (Inr p, s1)"
    and "row_score row = Num sc"
    and "upload_rows now rows (cnt + 1)
           (add (NewFeedback (row_product_id row) sc (row_comment row))
              (if p = None
               then add (NewProduct (row_product_id row) (''Product '' @ row_product_id row)) s1
               else s1)) = (Inr n, s')"
proof (cases "query_product_first now (row_product_id row) s")
  case (Pair r s1)
  show ?thesis
  proof (cases r)
    case (Inl e)
    with Pair assms show ?thesis by simp
  next
    case (Inr p)
    show ?thesis
    proof (cases "py_float (row_score row)")
      case (Inl e)
      with Pair \<open>r = Inr p\<close> assms show ?thesis by simp
    next
      case (Inr sc)
      from Pair \<open>r = Inr p\<close> have q: "query_product_first now (row_product_id row) s = (Inr p, s1)"
        by simp
      from Inr have c: "row_score row = Num sc" by (rule py_float_Inr)
      from assms q Inr
      have "upload_rows now rows (cnt + 1)
           (add (NewFeedback (row_product_id row) sc (row_comment row))
              (if p = None
               then add (NewProduct (row_product_id row) (''Product '' @ row_product_id row)) s1
               else s1)) = (Inr n, s')" by simp
      with q c show ?thesis by (rule that)
    qed
  qed
qed

lemma upload_rows_ok:
  "upload_rows now rows cnt s = (Inr n, s') \<Longrightarrow>
     n = cnt + length rows \<and> logical s' = logical s @ rows
     \<and> (\<exists>new. feedback_entries (s_view s') = feedback_entries (s_view s) @ new)
     \<and> commits (s_view s') = commits (s_view s)
     \<and> (distinct (product_ids (s_view s)) \<longrightarrow> distinct (product_ids (s_view s')))"
proof (induction rows arbitrary: cnt s)
  case Nil
  then show ?case by simp
next
  case (Cons row rows)
  from Cons.prems obtain p s1 sc
    where q: "query_product_first now (row_product_id row) s = (Inr p, s1)"
      and c: "row_score row = Num sc"
      and u: "upload_rows now rows (cnt + 1)
           (add (NewFeedback (row_product_id row) sc (row_comment row))
              (if p = None
               then add (NewProduct (row_product_id row) (''Product '' @ row_product_id row)) s1
               else s1)) = (Inr n, s')"
    by (rule upload_rows_Cons_Inr)
  let ?s3 = "add (NewFeedback (row_product_id row) sc (row_comment row))
              (if p = None
               then add (NewProduct (row_product_id row) (''Product '' @ row_product_id row)) s1
               else s1)"
  have v3: "s_view ?s3 = s_view s1" by (simp add: add_simps)
  have l3: "logical ?s3 = logical s @ [row]"
    using query_product_first_ok(1) [OF q] csv_row_eq [OF c]
    by (simp add: logical_add_feedback logical_add_product)
  from Cons.IH [OF u] have n: "n = cnt + 1 + length rows"
    and l: "logical s' = logical ?s3 @ rows"
    and f: "\<exists>new. feedback_entries (s_view s') = feedback_entries (s_view ?s3) @ new"
    and k: "commits (s_view s') = commits (s_view ?s3)"
    and d: "distinct (product_ids (s_view ?s3)) \<longrightarrow> distinct (product_ids (s_view s'))"
    by blast+
  have "n = cnt + length (row # rows)" using n by simp
  moreover have "logical s' = logical s @ row # rows" using l l3 by simp
  moreover have "\<exists>new. feedback_entries (s_view s') = feedback_entries (s_view s) @ new"
    using f query_product_first_ok(2) [OF q] by (auto simp only: v3 append_assoc)
  moreover have "commits (s_view s') = commits (s_view s)"
    using k query_product_first_ok(3) [OF q] by (simp only: v3)
  moreover have "distinct (product_ids (s_view s)) \<longrightarrow> distinct (product_ids (s_view s'))"
    using d query_product_first_ok(4) [OF q] by (simp only: v3) blast
  ultimately show ?case by blast
qed

lemma commit_committed_fail:
  "commit now s = (Inl e, s2) \<Longrightarrow> s_committed s2 = s_committed s"
proof -
  assume a: "commit now s = (Inl e, s2)"
  obtain r s1 where f: "flush now s = (r, s1)" by (cases "flush now s")
  with flush_committed [of now s] have c: "s_committed s1 = s_committed s" by simp
  from a f c show ?thesis by (cases r) (simp_all add: commit_def Let_def)
qed

lemma commit_ok:
  assumes "commit now s = (Inr fr, s2)"
  obtains s1 where "flush now s = (Inr fr, s1)"
    and "s_committed s2 = (s_view s1)\<lparr>commits := Suc (commits (s_committed s))\<rparr>"
proof -
  obtain r s1 where f: "flush now s = (r, s1)" by (cases "flush now s")
  with flush_committed [of now s] have c: "s_committed s1 = s_committed s" by simp
  from assms f have r: "r = Inr fr" by (cases r) (simp_all add: commit_def Let_def)
  with assms f c have "s_committed s2 = (s_view s1)\<lparr>commits := Suc (commits (s_committed s))\<rparr>"
    by (auto simp: commit_def Let_def)
  with f r show ?thesis using that by simp
qed

lemma upload_try_committed:
  "s_committed (snd (upload_try now csv s)) = s_committed s \<or> (\<exists>r. fst (upload_try now csv s) = Inr r)"
proof (cases csv)
  case (Inl e)
  then show ?thesis by (simp add: upload_try_def)
next
  case (Inr df)
  obtain r s1 where u: "upload_rows now df 0 s = (r, s1)" by (cases "upload_rows now df 0 s")
  with upload_rows_committed [of now df 0 s] have c1: "s_committed s1 = s_committed s" by simp
  show ?thesis
  proof (cases r)
    case (Inl e)
    with Inr u c1 show ?thesis by (simp add: upload_try_def)
  next
    case (Inr n)
    obtain r2 s2 where k: "commit now s1 = (r2, s2)" by (cases "commit now s1")
    show ?thesis
    proof (cases r2)
      case (Inl e)
      with k commit_committed_fail [of now s1 e s2] c1 \<open>csv = Inr df\<close> u Inr
      show ?thesis by (simp add: upload_try_def)
    next
      case (Inr fr)
      with k \<open>csv = Inr df\<close> u \<open>r = Inr n\<close> show ?thesis by (simp add: upload_try_def)
    qed
  qed
qed

lemma upload_csv_data_failure:
  assumes "fst (upload_csv_data af now csv db) = Inl f"
  shows "snd (upload_csv_data af now csv db) = db
         \<and> (\<exists>e. f = HTTPException 400 (''Error processing CSV: '' @ str_exn e))"
proof -
  obtain r s where t: "upload_try now csv (new_session af db) = (r, s)"
    by (cases "upload_try now csv (new_session af db)")
  show ?thesis
  proof (cases r)
    case (Inl e)
    with t upload_try_committed [of now csv "new_session af db"]
    have "s_committed s = db" by (simp add: new_session_def)
    with t Inl assms show ?thesis by (auto simp: upload_csv_data_def close_def)
  next
    case (Inr m)
    with t assms show ?thesis by (simp add: upload_csv_data_def)
  qed
qed

lemma upload_csv_data_read_error:
  "upload_csv_data af now (Inl e) db =
     (Inl (HTTPException 400 (''Error processing CSV: '' @ str_exn e)), db)"
  by (simp add: upload_csv_data_def upload_try_def close_def new_session_def)

lemma upload_csv_data_Inr:
  assumes "upload_csv_data af now (Inr rows) db = (Inr r, db')"
  obtains n s1 fr s2 where "upload_rows now rows 0 (new_session af db) = (Inr n, s1)"
    and "commit now s1 = (Inr fr, s2)"
    and "r = [(''message'', ''Successfully imported '' @ str_nat n @ '' feedback entries'')]"
    and "db' = s_committed s2"
proof -
  obtain r1 s1 where u: "upload_rows now rows 0 (new_session af db) = (r1, s1)"
    by (cases "upload_rows now rows 0 (new_session af db)")
  show ?thesis
  proof (cases r1)
    case (Inl e)
    with u assms show ?thesis by (simp add: upload_csv_data_def upload_try_def)
  next
    case (Inr n)
    obtain r2 s2 where k: "commit now s1 = (r2, s2)" by (cases "commit now s1")
    show ?thesis
    proof (cases r2)
      case (Inl e)
      with u Inr k assms show ?thesis by (simp add: upload_csv_data_def upload_try_def)
    next
      case (Inr fr)
      from u \<open>r1 = Inr n\<close> have 1: "upload_rows now rows 0 (new_session af db) = (Inr n, s1)"
        by simp
      from k Inr have 2: "commit now s1 = (Inr fr, s2)" by simp
      from assms 1 2
      have 3: "r = [(''message'', ''Successfully imported '' @ str_nat n @ '' feedback entries'')]"
        and 4: "db' = s_committed s2"
        by (simp_all add: upload_csv_data_def upload_try_def close_def)
      from 1 2 3 4 show ?thesis by (rule that)
    qed
  qed
qed

lemma upload_csv_data_success:
  assumes "upload_csv_data af now (Inr rows) db = (Inr r, db')"
  shows "r = [(''message'', ''Successfully imported '' @ str_nat (length rows)
                 @ '' feedback entries'')]"
    and "commits db' = Suc (commits db)"
    and "\<exists>new. feedback_entries db' = feedback_entries db @ new \<and> map row_of new = rows"
    and "distinct (product_ids db) \<Longrightarrow> distinct (product_ids db')"
proof -
  from assms obtain n s1 fr s2
    where u: "upload_rows now rows 0 (new_session af db) = (Inr n, s1)"
      and k: "commit now s1 = (Inr fr, s2)"
      and r: "r = [(''message'', ''Successfully imported '' @ str_nat n @ '' feedback entries'')]"
      and d: "db' = s_committed s2"
    by (rule upload_csv_data_Inr)
  from upload_rows_ok [OF u] have n: "n = length rows"
    and l: "logical s1 = logical (new_session af db) @ rows"
    and f: "\<exists>new. feedback_entries (s_view s1) = feedback_entries (s_view (new_session af db)) @ new"
    and di: "distinct (product_ids (s_view (new_session af db))) \<longrightarrow> distinct (product_ids (s_view s1))"
    by simp_all
  from upload_rows_committed [of now rows 0 "new_session af db"] u
  have c1: "s_committed s1 = db" by (simp add: new_session_def)
  from k obtain s1' where fl: "flush now s1 = (Inr fr, s1')"
    and c2: "s_committed s2 = (s_view s1')\<lparr>commits := Suc (commits (s_committed s1))\<rparr>"
    by (rule commit_ok)
  show "r = [(''message'', ''Successfully imported '' @ str_nat (length rows)
                 @ '' feedback entries'')]" using r n by simp
  show "commits db' = Suc (commits db)" using d c2 c1 by simp
  from f obtain new1 where new1: "feedback_entries (s_view s1) = feedback_entries db @ new1"
    by (auto simp: new_session_def)
  have fe: "feedback_entries db' = feedback_entries db @ (new1 @ fr)"
    using d c2 flush_ok(3) [OF fl] new1 by simp
  have "logical s1' = map row_of (feedback_entries db) @ rows"
    using flush_ok(1) [OF fl] l by (simp add: logical_def new_session_def)
  moreover have "logical s1' = map row_of (feedback_entries db @ (new1 @ fr))"
    using flush_ok(2,3) [OF fl] new1 by (simp add: logical_def)
  ultimately have "map row_of (new1 @ fr) = rows" by simp
  with fe show "\<exists>new. feedback_entries db' = feedback_entries db @ new \<and> map row_of new = rows"
    by blast
  assume "distinct (product_ids db)"
  with di have "distinct (product_ids (s_view s1))" by (simp add: new_session_def)
  from flush_ok(5) [OF fl this] show "distinct (product_ids db')"
    using d c2 by (simp add: product_ids_def)
qed

lemma flushable_clean: "s_pending s = [] \<Longrightarrow> flushable now s"
  by (simp add: flushable_def)

lemma flushable_flush:
  assumes "flushable now s"
  obtains fr s1 where "flush now s = (Inr fr, s1)" and "s_pending s1 = []"
    and "s_autoflush s1 = s_autoflush s"
proof -
  from assms obtain res where "flush_objs now (s_pending s) (s_view s) = Inr res"
    by (cases "flush_objs now (s_pending s) (s_view s)") (simp_all add: flushable_def)
  moreover obtain fr V where "res = (fr, V)" by (cases res)
  ultimately have "flush now s = (Inr fr, s\<lparr>s_view := V, s_pending := []\<rparr>)"
    by (simp add: flush_def)
  then show ?thesis using that [of fr "s\<lparr>s_view := V, s_pending := []\<rparr>"] by simp
qed

lemma query_flushable:
  assumes "s_autoflush s \<longrightarrow> flushable now s"
  obtains p s1 where "query_product_first now pid s = (Inr p, s1)"
    and "s_autoflush s1 = s_autoflush s"
    and "s_autoflush s \<longrightarrow> s_pending s1 = []"
    and "p = find (\<lambda>q. p_product_id q = pid) (products (s_view s1))"
proof (cases "s_autoflush s")
  case False
  then have "query_product_first now pid s
      = (Inr (find (\<lambda>q. p_product_id q = pid) (products (s_view s))), s)"
    by (simp add: query_product_first_def autoflush_def)
  with False show ?thesis using that by simp
next
  case True
  with assms have "flushable now s" by simp
  then obtain fr s1 where f: "flush now s = (Inr fr, s1)" and p: "s_pending s1 = []"
    and a: "s_autoflush s1 = s_autoflush s" by (rule flushable_flush)
  from f True have "query_product_first now pid s
      = (Inr (find (\<lambda>q. p_product_id q = pid) (products (s_view s1))), s1)"
    by (simp add: query_product_first_def autoflush_def)
  with p a show ?thesis using that by simp
qed

lemma flushable_after_adds:
  assumes "s_pending s1 = []"
      and "p = find (\<lambda>q. p_product_id q = pid) (products (s_view s1))"
  shows "flushable now (add (NewFeedback pid sc cm)
           (if p = None then add (NewProduct pid nm) s1 else s1))"
proof (cases "p = None")
  case True
  with assms(2) have "pid \<notin> set (map p_product_id (products (s_view s1)))"
    by (force simp: find_None_iff)
  with True assms(1) show ?thesis
    by (simp add: flushable_def add_simps insert_product_def insert_feedback_def Let_def
          split: sum.splits)
next
  case False
  then obtain y where "p = Some y" by (cases p) simp_all
  with assms(1) show ?thesis
    by (simp add: flushable_def add_simps insert_feedback_def Let_def)
qed

lemma upload_rows_bad:
  "s_autoflush s \<longrightarrow> flushable now s \<Longrightarrow> map row_score good = map Num xs \<Longrightarrow>
   row_score bad = NotNum t \<Longrightarrow>
   fst (upload_rows now (good @ bad # rest) cnt s) = Inl (ValueError t)"
proof (induction good arbitrary: cnt s xs)
  case Nil
  from Nil.prems(1) obtain p s1
    where q: "query_product_first now (row_product_id bad) s = (Inr p, s1)"
    by (rule query_flushable)
  with Nil.prems(3) show ?case by simp
next
  case (Cons row good)
  from Cons.prems(2) obtain x xs' where x: "row_score row = Num x"
    and xs': "map row_score good = map Num xs'" by (cases xs) auto
  from Cons.prems(1) obtain p s1
    where q: "query_product_first now (row_product_id row) s = (Inr p, s1)"
      and a: "s_autoflush s1 = s_autoflush s"
      and e: "s_autoflush s \<longrightarrow> s_pending s1 = []"
      and p: "p = find (\<lambda>q. p_product_id q = row_product_id row) (products (s_view s1))"
    by (rule query_flushable)
  let ?s3 = "add (NewFeedback (row_product_id row) x (row_comment row))
              (if p = None
               then add (NewProduct (row_product_id row) (''Product '' @ row_product_id row)) s1
               else s1)"
  have inv: "s_autoflush ?s3 \<longrightarrow> flushable now ?s3"
  proof
    assume "s_autoflush ?s3"
    then have "s_autoflush s" using a by (simp add: add_simps split: if_splits)
    with e have "s_pending s1 = []" by simp
    from flushable_after_adds [OF this p] show "flushable now ?s3" .
  qed
  have "upload_rows now ((row # good) @ bad # rest) cnt s
          = upload_rows now (good @ bad # rest) (cnt + 1) ?s3"
    using q x by simp
  with Cons.IH [OF inv xs' Cons.prems(3)] show ?case by simp
qed

lemma upload_rows_good:
  "s_autoflush s \<Longrightarrow> flushable now s \<Longrightarrow> map row_score rows = map Num xs \<Longrightarrow>
   \<exists>n s'. upload_rows now rows cnt s = (Inr n, s') \<and> flushable now s'"
proof (induction rows arbitrary: cnt s xs)
  case Nil
  then show ?case by simp
next
  case (Cons row rows)
  from Cons.prems(3) obtain x xs' where x: "row_score row = Num x"
    and xs': "map row_score rows = map Num xs'" by (cases xs) auto
  from Cons.prems(1,2) have "s_autoflush s \<longrightarrow> flushable now s" by simp
  then obtain p s1
    where q: "query_product_first now (row_product_id row) s = (Inr p, s1)"
      and a: "s_autoflush s1 = s_autoflush s"
      and e: "s_autoflush s \<longrightarrow> s_pending s1 = []"
      and p: "p = find (\<lambda>q. p_product_id q = row_product_id row) (products (s_view s1))"
    by (rule query_flushable)
  let ?s3 = "add (NewFeedback (row_product_id row) x (row_comment row))
              (if p = None
               then add (NewProduct (row_product_id row) (''Product '' @ row_product_id row)) s1
               else s1)"
  from e Cons.prems(1) have "s_pending s1 = []" by simp
  from flushable_after_adds [OF this p] have fl: "flushable now ?s3" .
  have af: "s_autoflush ?s3" using a Cons.prems(1) by (simp add: add_simps)
  have "upload_rows now (row # rows) cnt s = upload_rows now rows (cnt + 1) ?s3"
    using q x by simp
  with Cons.IH [OF af fl xs'] show ?case by simp
qed

lemma commit_flushable:
  assumes "flushable now s"
  shows "\<exists>fr s2. commit now s = (Inr fr, s2)"
proof -
  from assms obtain fr s1 where "flush now s = (Inr fr, s1)" by (rule flushable_flush)
  then show ?thesis by (simp add: commit_def Let_def)
qed

lemma upload_csv_data_bad_row:
  assumes "map row_score good = map Num xs" and "row_score bad = NotNum t"
  shows "upload_csv_data af now (Inr (good @ bad # rest)) db =
     (Inl (HTTPException 400 (''Error processing CSV: '' @ str_exn (ValueError t))), db)"
proof -
  have inv: "s_autoflush (new_session af db) \<longrightarrow> flushable now (new_session af db)"
    by (simp add: flushable_clean new_session_def)
  obtain r s1 where u: "upload_rows now (good @ bad # rest) 0 (new_session af db) = (r, s1)"
    by (cases "upload_rows now (good @ bad # rest) 0 (new_session af db)")
  with upload_rows_bad [OF inv assms, of rest 0] have r: "r = Inl (ValueError t)" by simp
  from u upload_rows_committed [of now "good @ bad # rest" 0 "new_session af db"]
  have "s_committed s1 = db" by (simp add: new_session_def)
  with u r show ?thesis
    by (simp add: upload_csv_data_def upload_try_def close_def)
qed

lemma upload_csv_data_autoflush_succeeds:
  assumes "map row_score rows = map Num xs"
  shows "\<exists>r db'. upload_csv_data True now (Inr rows) db = (Inr r, db')"
proof -
  have "s_autoflush (new_session True db)" "flushable now (new_session True db)"
    by (simp_all add: flushable_clean new_session_def)
  from upload_rows_good [OF this assms, of 0] obtain n s1
    where u: "upload_rows now rows 0 (new_session True db) = (Inr n, s1)"
      and f: "flushable now s1" by blast
  from commit_flushable [OF f] obtain fr s2 where "commit now s1 = (Inr fr, s2)" by blast
  with u show ?thesis by (simp add: upload_csv_data_def upload_try_def)
qed

section \<open>Properties of the read handlers\<close>

lemma get_all_feedback_eq:
  "get_all_feedback af now db = (Inr (feedback_entries db), db)"
  by (simp add: get_all_feedback_def query_feedback_all_def autoflush_new_session)
     (simp add: new_session_def close_def)

lemma get_feedback_by_product_eq:
  "get_feedback_by_product af now pid db =
     (if feedback_of pid db = []
      then (Inl (HTTPException 404 ''No feedback found for this product''), db)
      else (Inr (feedback_of pid db), db))"
  by (simp add: get_feedback_by_product_def query_feedback_by_product_def
        autoflush_new_session)
     (simp add: new_session_def close_def feedback_of_def)

lemma get_product_averages_eq:
  "get_product_averages avg af now db =
     (Inr (map (\<lambda>(pid, average_score, feedback_count).
                  \<lparr>pa_product_id = pid,
                   pa_average_score = round2 average_score,
                   pa_feedback_count = feedback_count\<rparr>)
             (group_avg_count avg (feedback_entries db))), db)"
  by (simp add: get_product_averages_def query_averages_def autoflush_new_session)
     (simp add: new_session_def close_def)

section \<open>Properties of the aggregation\<close>











lemma binary64_nine_halves: "binary64 (9 / 2) = 9 / 2"
  by code_simp






section \<open>Properties of create_feedback\<close>

lemma create_feedback_existing:
  assumes "fc_product_id fb \<in> set (product_ids db)"
  shows "create_feedback af now fb db =
     (Inr (new_feedback_row now (fc_product_id fb) (fc_score fb) (fc_comment fb) db),
      db\<lparr>feedback_entries := feedback_entries db @
            [new_feedback_row now (fc_product_id fb) (fc_score fb) (fc_comment fb) db],
         commits := Suc (commits db)\<rparr>)"
proof -
  obtain p where "find (\<lambda>p. p_product_id p = fc_product_id fb) (products db) = Some p"
    using assms by (cases "find (\<lambda>p. p_product_id p = fc_product_id fb) (products db)")
      (auto simp: find_None_iff product_ids_def)
  then have "create_feedback af now fb db =
      (case commit now (add (NewFeedback (fc_product_id fb) (fc_score fb) (fc_comment fb))
                (new_session af db)) of
         (Inl e, s3) \<Rightarrow> (Inl (Unhandled e), close s3)
       | (Inr [], s3) \<Rightarrow> (Inl (Unhandled InvalidRequestError), close s3)
       | (Inr (db_feedback # _), s3) \<Rightarrow>
           (case refresh db_feedback s3 of
              Inl e \<Rightarrow> (Inl (Unhandled e), close s3)
            | Inr r \<Rightarrow> (Inr r, close s3)))"
    by (simp add: create_feedback_def create_feedback_env_def create_feedback_steps_def
          query_product_first_new)
       (simp add: interfere_def new_session_def)
  then show ?thesis
    by (simp add: commit_feedback_clean new_session_def Let_def refresh_def
          find_fresh_id new_feedback_row_def close_def)
qed

lemma interfere_id: "interfere id s = s"
  by (simp add: interfere_def)

lemma create_feedback_steps_absent:
  assumes "fc_product_id fb \<notin> set (product_ids db)"
  shows "create_feedback_steps env env' af now fb db =
      (case commit now (add (NewProduct (fc_product_id fb) (''Product '' @ fc_product_id fb))
                (new_session af (env db))) of
         (Inl e, s2) \<Rightarrow> (Inl (Unhandled e), close s2)
       | (Inr _, s2) \<Rightarrow>
      (case commit now (add (NewFeedback (fc_product_id fb) (fc_score fb) (fc_comment fb))
                 (interfere env' s2)) of
         (Inl e, s3) \<Rightarrow> (Inl (Unhandled e), close s3)
       | (Inr [], s3) \<Rightarrow> (Inl (Unhandled InvalidRequestError), close s3)
       | (Inr (db_feedback # _), s3) \<Rightarrow>
           (case refresh db_feedback s3 of
              Inl e \<Rightarrow> (Inl (Unhandled e), close s3)
            | Inr r \<Rightarrow> (Inr r, close s3))))"
proof -
  have "find (\<lambda>p. p_product_id p = fc_product_id fb) (products db) = None"
    using assms by (force simp: find_None_iff product_ids_def)
  then show ?thesis
    by (simp add: create_feedback_steps_def query_product_first_new)
       (simp add: interfere_def new_session_def)
qed

lemma create_feedback_env_absent:
  assumes "fc_product_id fb \<notin> set (product_ids db)"
  shows "create_feedback_env env af now fb db =
      (case commit now (add (NewProduct (fc_product_id fb) (''Product '' @ fc_product_id fb))
                (new_session af (env db))) of
         (Inl e, s2) \<Rightarrow> (Inl (Unhandled e), close s2)
       | (Inr _, s2) \<Rightarrow>
      (case commit now (add (NewFeedback (fc_product_id fb) (fc_score fb) (fc_comment fb)) s2) of
         (Inl e, s3) \<Rightarrow> (Inl (Unhandled e), close s3)
       | (Inr [], s3) \<Rightarrow> (Inl (Unhandled InvalidRequestError), close s3)
       | (Inr (db_feedback # _), s3) \<Rightarrow>
           (case refresh db_feedback s3 of
              Inl e \<Rightarrow> (Inl (Unhandled e), close s3)
            | Inr r \<Rightarrow> (Inr r, close s3))))"
  unfolding create_feedback_env_def create_feedback_steps_absent [OF assms] interfere_id
  by (rule refl)

lemma create_feedback_steps_observed:
  assumes "fc_product_id fb \<notin> set (product_ids db)"
  shows "create_feedback_steps id env' af now fb db =
     (Inr (new_feedback_row now (fc_product_id fb) (fc_score fb) (fc_comment fb)
            (env' (db\<lparr>products := products db @ [new_product_row now (fc_product_id fb) db],
                        commits := Suc (commits db)\<rparr>))),
      (env' (db\<lparr>products := products db @ [new_product_row now (fc_product_id fb) db],
                  commits := Suc (commits db)\<rparr>))
        \<lparr>feedback_entries :=
           feedback_entries
             (env' (db\<lparr>products := products db @ [new_product_row now (fc_product_id fb) db],
                         commits := Suc (commits db)\<rparr>))
           @ [new_feedback_row now (fc_product_id fb) (fc_score fb) (fc_comment fb)
               (env' (db\<lparr>products := products db @ [new_product_row now (fc_product_id fb) db],
                           commits := Suc (commits db)\<rparr>))],
         commits :=
           Suc (commits
             (env' (db\<lparr>products := products db @ [new_product_row now (fc_product_id fb) db],
                         commits := Suc (commits db)\<rparr>)))\<rparr>)"
  using assms
  by (simp add: create_feedback_steps_absent)
     (simp add: commit_feedback_clean commit_product_clean new_session_def Let_def refresh_def
          find_fresh_id new_feedback_row_def new_product_row_def close_def product_ids_def
          interfere_def)

lemma create_feedback_absent:
  assumes "fc_product_id fb \<notin> set (product_ids db)"
  shows "create_feedback af now fb db =
     (Inr (new_feedback_row now (fc_product_id fb) (fc_score fb) (fc_comment fb) db),
      db\<lparr>products := products db @ [new_product_row now (fc_product_id fb) db],
         feedback_entries := feedback_entries db @
            [new_feedback_row now (fc_product_id fb) (fc_score fb) (fc_comment fb) db],
         commits := Suc (Suc (commits db))\<rparr>)"
  using assms
  by (simp add: create_feedback_def create_feedback_env_absent)
     (simp add: commit_feedback_clean commit_product_clean new_session_def Let_def refresh_def
          find_fresh_id new_feedback_row_def new_product_row_def close_def product_ids_def)

lemma create_feedback_race:
  assumes "fc_product_id fb \<notin> set (product_ids db)"
      and "fc_product_id fb \<in> set (product_ids (env db))"
  shows "create_feedback_env env af now fb db =
           (Inl (Unhandled (IntegrityError (fc_product_id fb))), env db)"
  using assms
  by (simp add: create_feedback_env_absent)
     (simp add: commit_product_clean new_session_def close_def product_ids_def)

lemma create_feedback_succeeds:
  "\<exists>row db'. create_feedback af now fb db = (Inr row, db')"
  by (cases "fc_product_id fb \<in> set (product_ids db)")
     (simp_all add: create_feedback_existing create_feedback_absent)

section \<open>The claims about the handlers\<close>




text \<open>
  C5. get_feedback_by_product returns exactly the feedback rows whose product_id is the
  path parameter, and raises the 404 HTTPException with the detail
  "No feedback found for this product" exactly when no row matches, whether or not a
  Product row with that product_id exists. Storage is the same afterwards.
\<close>

theorem get_feedback_by_product_not_found_iff_empty:
  "get_feedback_by_product af now pid db =
     (if filter (\<lambda>f. f_product_id f = pid) (feedback_entries db) = []
      then (Inl (HTTPException 404 ''No feedback found for this product''), db)
      else (Inr (filter (\<lambda>f. f_product_id f = pid) (feedback_entries db)), db))"
  by (simp add: get_feedback_by_product_eq feedback_of_def)

text \<open>
  C9. The read endpoints, GET / (home), GET /feedback/ (get_all_feedback),
  GET /feedback/averages/ (get_product_averages) and GET /feedback/product/{id}
  (get_feedback_by_product), leave the storage as it was: both tables and the number of
  commits are unchanged, whatever the outcome.
\<close>

theorem read_endpoints_leave_storage_unchanged:
  "snd (app avg af now GET_home db) = db
   \<and> snd (app avg af now GET_feedback db) = db
   \<and> snd (app avg af now GET_feedback_averages db) = db
   \<and> snd (app avg af now (GET_feedback_product pid) db) = db"
  by (simp add: get_all_feedback_eq get_feedback_by_product_eq get_product_averages_eq)

text \<open>
  C4. For a request whose product_id has no Product row, create_feedback inserts a
  Product named "Product " followed by the product_id and commits it before it inserts
  the FeedbackEntry: whatever other requests do between the two commits, they find the
  storage \<open>seen\<close>, in which the Product row is committed and the feedback table is as
  it was, and the FeedbackEntry is then inserted into what they leave. When the request
  runs alone there is afterwards exactly one Product row with that product_id and
  exactly one more FeedbackEntry row, after two commits, and the row returned is the
  persisted one, with its generated id and created_at.
\<close>

theorem create_feedback_unknown_product:
  assumes "fc_product_id fb \<notin> set (map p_product_id (products db))"
  shows "\<exists>row db'.
     create_feedback af now fb db = (Inr row, db')
     \<and> row = \<lparr>f_id = next_id (map f_id (feedback_entries db)),
               f_product_id = fc_product_id fb, f_score = fc_score fb,
               f_comment = fc_comment fb, f_created_at = now\<rparr>
     \<and> products db' = products db @
           [\<lparr>p_id = next_id (map p_id (products db)), p_product_id = fc_product_id fb,
             p_name = ''Product '' @ fc_product_id fb, p_created_at = now\<rparr>]
     \<and> feedback_entries db' = feedback_entries db @ [row]
     \<and> commits db' = commits db + 2
     \<and> length (filter (\<lambda>p. p_product_id p = fc_product_id fb) (products db')) = 1
     \<and> length (feedback_entries db') = length (feedback_entries db) + 1
     \<and> (let seen = db\<lparr>products := products db', commits := Suc (commits db)\<rparr>;
             left = env' seen;
             row' = \<lparr>f_id = next_id (map f_id (feedback_entries left)),
                     f_product_id = fc_product_id fb, f_score = fc_score fb,
                     f_comment = fc_comment fb, f_created_at = now\<rparr>
         in create_feedback_steps id env' af now fb db =
              (Inr row', left\<lparr>feedback_entries := feedback_entries left @ [row'],
                             commits := Suc (commits left)\<rparr>))"
proof -
  have a: "fc_product_id fb \<notin> set (product_ids db)"
    using assms by (simp add: product_ids_def)
  have none: "filter (\<lambda>p. p_product_id p = fc_product_id fb) (products db) = []"
    using assms by (force simp: filter_empty_conv)
  show ?thesis
    using assms none
    by (simp add: create_feedback_absent [OF a] create_feedback_steps_observed [OF a]
          new_feedback_row_def new_product_row_def Let_def)
qed

theorem create_feedback_unknown_product_witness:
  "''A'' \<notin> set (map p_product_id (products \<lparr>products = [], feedback_entries = [], commits = 0\<rparr>))
   \<and> create_feedback True 7 \<lparr>fc_product_id = ''A'', fc_score = 4, fc_comment = None\<rparr>
       \<lparr>products = [], feedback_entries = [], commits = 0\<rparr>
     = (Inr \<lparr>f_id = 1, f_product_id = ''A'', f_score = 4, f_comment = None, f_created_at = 7\<rparr>,
        \<lparr>products = [\<lparr>p_id = 1, p_product_id = ''A'', p_name = ''Product A'', p_created_at = 7\<rparr>],
         feedback_entries = [\<lparr>f_id = 1, f_product_id = ''A'', f_score = 4, f_comment = None,
                               f_created_at = 7\<rparr>],
         commits = 2\<rparr>)
   \<and> create_feedback_steps id
       (concurrent_insert \<lparr>p_id = 2, p_product_id = ''B'', p_name = ''Product B'', p_created_at = 7\<rparr>)
       True 7 \<lparr>fc_product_id = ''A'', fc_score = 4, fc_comment = None\<rparr>
       \<lparr>products = [], feedback_entries = [], commits = 0\<rparr>
     = (Inr \<lparr>f_id = 1, f_product_id = ''A'', f_score = 4, f_comment = None, f_created_at = 7\<rparr>,
        \<lparr>products = [\<lparr>p_id = 1, p_product_id = ''A'', p_name = ''Product A'', p_created_at = 7\<rparr>,
                     \<lparr>p_id = 2, p_product_id = ''B'', p_name = ''Product B'', p_created_at = 7\<rparr>],
         feedback_entries = [\<lparr>f_id = 1, f_product_id = ''A'', f_score = 4, f_comment = None,
                               f_created_at = 7\<rparr>],
         commits = 3\<rparr>)"
  using create_feedback_unknown_product
          [of "\<lparr>fc_product_id = ''A'', fc_score = 4, fc_comment = None\<rparr>"
              "\<lparr>products = [], feedback_entries = [], commits = 0\<rparr>" True 7
              "concurrent_insert
                 \<lparr>p_id = 2, p_product_id = ''B'', p_name = ''Product B'', p_created_at = 7\<rparr>"]
  by (auto simp: next_id_def concurrent_insert_def Let_def)

text \<open>
  C3. On POST /feedback/ a score of exactly 1 and of exactly 5 passes validation, as
  does every score between them, and the handler then answers with the created row. A
  score below 1 or above 5 (0.99 and 5.01 among them) and a body without product_id or
  without score are answered with the validation error (status 422), and the storage is
  the one the request found: the handler never ran.
\<close>

theorem create_feedback_validation:
  "validate \<lparr>b_product_id = Some pid, b_score = Some 1, b_comment = cm\<rparr>
     = Inr \<lparr>fc_product_id = pid, fc_score = 1, fc_comment = cm\<rparr>
   \<and> validate \<lparr>b_product_id = Some pid, b_score = Some 5, b_comment = cm\<rparr>
     = Inr \<lparr>fc_product_id = pid, fc_score = 5, fc_comment = cm\<rparr>
   \<and> (1 \<le> x \<and> x \<le> 5 \<longrightarrow>
        (\<exists>row db'. app avg af now (POST_feedback
            \<lparr>b_product_id = Some pid, b_score = Some x, b_comment = cm\<rparr>) db
          = (Json_feedback row, db')))
   \<and> (y < 1 \<or> 5 < y \<longrightarrow>
        (\<exists>errs. app avg af now (POST_feedback
            \<lparr>b_product_id = p, b_score = Some y, b_comment = cm\<rparr>) db
          = (Validation_error errs, db) \<and> status_code (Validation_error errs) = 422))
   \<and> (p = None \<or> sc = None \<longrightarrow>
        (\<exists>errs. app avg af now (POST_feedback
            \<lparr>b_product_id = p, b_score = sc, b_comment = cm\<rparr>) db
          = (Validation_error errs, db) \<and> status_code (Validation_error errs) = 422))
   \<and> app avg af now (POST_feedback
            \<lparr>b_product_id = Some pid, b_score = Some (99 / 100), b_comment = cm\<rparr>) db
          = (Validation_error [GreaterThanEqual ''score''], db)
   \<and> app avg af now (POST_feedback
            \<lparr>b_product_id = Some pid, b_score = Some (501 / 100), b_comment = cm\<rparr>) db
          = (Validation_error [LessThanEqual ''score''], db)"
proof -
  have acc: "1 \<le> x \<and> x \<le> 5 \<longrightarrow>
        (\<exists>row db'. app avg af now (POST_feedback
            \<lparr>b_product_id = Some pid, b_score = Some x, b_comment = cm\<rparr>) db
          = (Json_feedback row, db'))"
    using create_feedback_succeeds
            [of af now "\<lparr>fc_product_id = pid, fc_score = x, fc_comment = cm\<rparr>" db]
    by (auto simp: validate_def score_errors_def)
  have rej: "y < 1 \<or> 5 < y \<longrightarrow>
        (\<exists>errs. app avg af now (POST_feedback
            \<lparr>b_product_id = p, b_score = Some y, b_comment = cm\<rparr>) db
          = (Validation_error errs, db) \<and> status_code (Validation_error errs) = 422)"
    by (cases p) (auto simp: validate_def score_errors_def)
  have mis: "p = None \<or> sc = None \<longrightarrow>
        (\<exists>errs. app avg af now (POST_feedback
            \<lparr>b_product_id = p, b_score = sc, b_comment = cm\<rparr>) db
          = (Validation_error errs, db) \<and> status_code (Validation_error errs) = 422)"
    by (cases p; cases sc) (auto simp: validate_def score_errors_def)
  show ?thesis
    using acc rej mis by (simp add: validate_def score_errors_def)
qed

theorem create_feedback_validation_witness:
  "(\<exists>row db'. app avg_binary64 True 7 (POST_feedback
            \<lparr>b_product_id = Some ''A'', b_score = Some 3, b_comment = None\<rparr>)
            \<lparr>products = [], feedback_entries = [], commits = 0\<rparr>
          = (Json_feedback row, db'))
   \<and> (\<exists>errs. app avg_binary64 True 7 (POST_feedback
            \<lparr>b_product_id = None, b_score = Some 0, b_comment = None\<rparr>)
            \<lparr>products = [], feedback_entries = [], commits = 0\<rparr>
          = (Validation_error errs, \<lparr>products = [], feedback_entries = [], commits = 0\<rparr>))"
  using create_feedback_validation
          [of "''A''" None 3 avg_binary64 True 7
              "\<lparr>products = [], feedback_entries = [], commits = 0\<rparr>" 0 None None]
  by simp

text \<open>
  C8, as the code has it. create_feedback has no handler around the insert of the
  Product. When another request commits a Product with the same product_id after the
  lookup found none, the commit of the Product raises the integrity error, the
  exception leaves the handler unhandled, and no FeedbackEntry is inserted: the storage
  is exactly what the other request left.
\<close>

theorem create_feedback_race_not_recovered:
  assumes "fc_product_id fb \<notin> set (map p_product_id (products db))"
      and "fc_product_id fb \<in> set (map p_product_id (products (env db)))"
  shows "create_feedback_env env af now fb db =
           (Inl (Unhandled (IntegrityError (fc_product_id fb))), env db)"
  using assms create_feedback_race [of fb db env af now] by (simp add: product_ids_def)

theorem create_feedback_race_not_recovered_witness:
  "''B'' \<notin> set (map p_product_id (products \<lparr>products = [], feedback_entries = [], commits = 3\<rparr>))
   \<and> create_feedback_env
     (concurrent_insert \<lparr>p_id = 1, p_product_id = ''B'', p_name = ''Product B'', p_created_at = 2\<rparr>)
     False 2 \<lparr>fc_product_id = ''B'', fc_score = 5, fc_comment = Some ''ok''\<rparr>
     \<lparr>products = [], feedback_entries = [], commits = 3\<rparr>
   = (Inl (Unhandled (IntegrityError ''B'')),
      \<lparr>products = [\<lparr>p_id = 1, p_product_id = ''B'', p_name = ''Product B'', p_created_at = 2\<rparr>],
       feedback_entries = [], commits = 4\<rparr>)"
  using create_feedback_race_not_recovered
     [of "\<lparr>fc_product_id = ''B'', fc_score = 5, fc_comment = Some ''ok''\<rparr>"
         "\<lparr>products = [], feedback_entries = [], commits = 3\<rparr>"
         "concurrent_insert \<lparr>p_id = 1, p_product_id = ''B'', p_name = ''Product B'', p_created_at = 2\<rparr>"
         False 2]
  by (simp add: concurrent_insert_def)

text \<open>
  C8 as stated fails: with an empty database and a concurrent insert of product "A", the
  request for "A" ends in the unhandled integrity error and the feedback table stays
  empty.
\<close>

theorem create_feedback_race_counterexample:
  "create_feedback_env
     (concurrent_insert \<lparr>p_id = 1, p_product_id = ''A'', p_name = ''Product A'', p_created_at = 7\<rparr>)
     True 7 \<lparr>fc_product_id = ''A'', fc_score = 4, fc_comment = None\<rparr>
     \<lparr>products = [], feedback_entries = [], commits = 0\<rparr>
   = (Inl (Unhandled (IntegrityError ''A'')),
      \<lparr>products = [\<lparr>p_id = 1, p_product_id = ''A'', p_name = ''Product A'', p_created_at = 7\<rparr>],
       feedback_entries = [], commits = 1\<rparr>)"
  by (simp add: create_feedback_env_def create_feedback_steps_def query_product_first_def
        autoflush_def flush_def
        new_session_def interfere_def concurrent_insert_def commit_def add_def
        insert_product_def rollback_def close_def)

text \<open>
  C10. The score range is checked on POST /feedback/ only: a score of 9 is rejected
  there, while a CSV file whose only row has the score 9 is imported successfully and
  the FeedbackEntry with score 9 is committed.
\<close>

theorem csv_import_has_no_score_range_check:
  "app avg af now (POST_feedback
       \<lparr>b_product_id = Some ''P'', b_score = Some 9, b_comment = None\<rparr>) db
     = (Validation_error [LessThanEqual ''score''], db)
   \<and> upload_csv_data af now
       (Inr [\<lparr>row_product_id = ''P'', row_score = Num 9, row_comment = None\<rparr>])
       \<lparr>products = [], feedback_entries = [], commits = 0\<rparr>
     = (Inr [(''message'', ''Successfully imported 1 feedback entries'')],
        \<lparr>products = [\<lparr>p_id = 1, p_product_id = ''P'', p_name = ''Product P'', p_created_at = now\<rparr>],
         feedback_entries = [\<lparr>f_id = 1, f_product_id = ''P'', f_score = 9, f_comment = None,
                               f_created_at = now\<rparr>],
         commits = 1\<rparr>)"
  by (cases af)
     (simp_all add: validate_def score_errors_def upload_csv_data_def upload_try_def
        query_product_first_def autoflush_def flush_def new_session_def commit_def add_def
        insert_product_def insert_feedback_def rollback_def close_def next_id_def digit_char_def
        Let_def)

text \<open>
  C6. When reading the file fails, or the score of a row cannot be coerced to a float,
  upload_csv_data raises the HTTPException with status 400 whose detail is
  "Error processing CSV: " followed by the message of the exception, and the storage is
  exactly what it was: nothing is committed. More generally every failure of
  upload_csv_data has this form and leaves the storage unchanged.
\<close>

theorem upload_csv_data_failure_commits_nothing:
  "upload_csv_data af now (Inl e) db =
     (Inl (HTTPException 400 (''Error processing CSV: '' @ str_exn e)), db)
   \<and> (map row_score good = map Num xs \<and> row_score bad = NotNum t \<longrightarrow>
        upload_csv_data af now (Inr (good @ bad # rest)) db =
          (Inl (HTTPException 400 (''Error processing CSV: '' @ str_exn (ValueError t))), db))
   \<and> (fst (upload_csv_data af now csv db) = Inl f \<longrightarrow>
        snd (upload_csv_data af now csv db) = db
        \<and> (\<exists>e'. f = HTTPException 400 (''Error processing CSV: '' @ str_exn e')))"
  using upload_csv_data_read_error [of af now e db]
    upload_csv_data_bad_row [of good xs bad t af now rest db]
    upload_csv_data_failure [of af now csv db f]
  by blast

theorem upload_csv_data_failure_commits_nothing_witness:
  "map row_score [\<lparr>row_product_id = ''A'', row_score = Num 4, row_comment = None\<rparr>] = map Num [4]
   \<and> upload_csv_data True 7
       (Inr [\<lparr>row_product_id = ''A'', row_score = Num 4, row_comment = None\<rparr>,
             \<lparr>row_product_id = ''B'', row_score = NotNum ''abc'', row_comment = Some ''x''\<rparr>])
       \<lparr>products = [\<lparr>p_id = 1, p_product_id = ''C'', p_name = ''Product C'', p_created_at = 1\<rparr>],
        feedback_entries = [], commits = 1\<rparr>
     = (Inl (HTTPException 400
              (''Error processing CSV: could not convert string to float: '' @ py_repr ''abc'')),
        \<lparr>products = [\<lparr>p_id = 1, p_product_id = ''C'', p_name = ''Product C'', p_created_at = 1\<rparr>],
         feedback_entries = [], commits = 1\<rparr>)"
  using upload_csv_data_failure_commits_nothing
     [of True 7 "ReadError ''no file''"
         "\<lparr>products = [\<lparr>p_id = 1, p_product_id = ''C'', p_name = ''Product C'', p_created_at = 1\<rparr>],
           feedback_entries = [], commits = 1\<rparr>"
         "[\<lparr>row_product_id = ''A'', row_score = Num 4, row_comment = None\<rparr>]" "[4]"
         "\<lparr>row_product_id = ''B'', row_score = NotNum ''abc'', row_comment = Some ''x''\<rparr>"
         "''abc''" "[]"]
  by simp

text \<open>
  C7. A successful upload_csv_data has appended one FeedbackEntry per data row, in the
  order of the file, with the row's product_id, its score as a float and its comment;
  it has committed once; and its message is "Successfully imported N feedback entries"
  with N the number of data rows. With an autoflushing session every file whose scores
  are all numeric is imported successfully.
\<close>

theorem upload_csv_data_imports_every_row:
  "(upload_csv_data af now (Inr rows) db = (Inr r, db') \<longrightarrow>
      r = [(''message'', ''Successfully imported '' @ str_nat (length rows)
              @ '' feedback entries'')]
      \<and> commits db' = Suc (commits db)
      \<and> (\<exists>new. feedback_entries db' = feedback_entries db @ new
            \<and> length new = length rows
            \<and> map f_product_id new = map row_product_id rows
            \<and> map (\<lambda>f. Num (f_score f)) new = map row_score rows
            \<and> map f_comment new = map row_comment rows))
   \<and> (map row_score rows = map Num xs \<longrightarrow>
        (\<exists>r db'. upload_csv_data True now (Inr rows) db = (Inr r, db')))"
proof -
  have 1: "upload_csv_data af now (Inr rows) db = (Inr r, db') \<longrightarrow>
      r = [(''message'', ''Successfully imported '' @ str_nat (length rows)
              @ '' feedback entries'')]
      \<and> commits db' = Suc (commits db)
      \<and> (\<exists>new. feedback_entries db' = feedback_entries db @ new
            \<and> length new = length rows
            \<and> map f_product_id new = map row_product_id rows
            \<and> map (\<lambda>f. Num (f_score f)) new = map row_score rows
            \<and> map f_comment new = map row_comment rows)"
  proof
    assume a: "upload_csv_data af now (Inr rows) db = (Inr r, db')"
    from upload_csv_data_success(3) [OF a] obtain new
      where fe: "feedback_entries db' = feedback_entries db @ new"
        and ro: "map row_of new = rows" by blast
    from ro have "length new = length rows"
      and "map f_product_id new = map row_product_id rows"
      and "map (\<lambda>f. Num (f_score f)) new = map row_score rows"
      and "map f_comment new = map row_comment rows"
      by (auto simp: row_of_def)
    with fe upload_csv_data_success(1,2) [OF a]
    show "r = [(''message'', ''Successfully imported '' @ str_nat (length rows)
              @ '' feedback entries'')]
      \<and> commits db' = Suc (commits db)
      \<and> (\<exists>new. feedback_entries db' = feedback_entries db @ new
            \<and> length new = length rows
            \<and> map f_product_id new = map row_product_id rows
            \<and> map (\<lambda>f. Num (f_score f)) new = map row_score rows
            \<and> map f_comment new = map row_comment rows)"
      by blast
  qed
  from 1 upload_csv_data_autoflush_succeeds [of rows xs now db] show ?thesis by blast
qed

theorem upload_csv_data_imports_every_row_witness:
  "upload_csv_data False 7
       (Inr [\<lparr>row_product_id = ''A'', row_score = Num 4, row_comment = None\<rparr>,
             \<lparr>row_product_id = ''B'', row_score = Num (5 / 2), row_comment = Some ''x''\<rparr>])
       \<lparr>products = [\<lparr>p_id = 1, p_product_id = ''A'', p_name = ''Product A'', p_created_at = 1\<rparr>],
        feedback_entries = [], commits = 1\<rparr>
     = (Inr [(''message'', ''Successfully imported 2 feedback entries'')],
        \<lparr>products = [\<lparr>p_id = 1, p_product_id = ''A'', p_name = ''Product A'', p_created_at = 1\<rparr>,
                     \<lparr>p_id = 2, p_product_id = ''B'', p_name = ''Product B'', p_created_at = 7\<rparr>],
         feedback_entries =
           [\<lparr>f_id = 1, f_product_id = ''A'', f_score = 4, f_comment = None, f_created_at = 7\<rparr>,
            \<lparr>f_id = 2, f_product_id = ''B'', f_score = 5 / 2, f_comment = Some ''x'',
              f_created_at = 7\<rparr>],
         commits = 2\<rparr>)
   \<and> str_nat (length [\<lparr>row_product_id = ''A'', row_score = Num 4, row_comment = None\<rparr>,
             \<lparr>row_product_id = ''B'', row_score = Num (5 / 2), row_comment = Some ''x''\<rparr>]) = ''2''"
proof -
  have e: "upload_csv_data False 7
       (Inr [\<lparr>row_product_id = ''A'', row_score = Num 4, row_comment = None\<rparr>,
             \<lparr>row_product_id = ''B'', row_score = Num (5 / 2), row_comment = Some ''x''\<rparr>])
       \<lparr>products = [\<lparr>p_id = 1, p_product_id = ''A'', p_name = ''Product A'', p_created_at = 1\<rparr>],
        feedback_entries = [], commits = 1\<rparr>
     = (Inr [(''message'', ''Successfully imported 2 feedback entries'')],
        \<lparr>products = [\<lparr>p_id = 1, p_product_id = ''A'', p_name = ''Product A'', p_created_at = 1\<rparr>,
                     \<lparr>p_id = 2, p_product_id = ''B'', p_name = ''Product B'', p_created_at = 7\<rparr>],
         feedback_entries =
           [\<lparr>f_id = 1, f_product_id = ''A'', f_score = 4, f_comment = None, f_created_at = 7\<rparr>,
            \<lparr>f_id = 2, f_product_id = ''B'', f_score = 5 / 2, f_comment = Some ''x'',
              f_created_at = 7\<rparr>],
         commits = 2\<rparr>)"
    by (simp add: upload_csv_data_def upload_try_def
        query_product_first_def autoflush_def flush_def new_session_def commit_def add_def
        insert_product_def insert_feedback_def rollback_def close_def next_id_def digit_char_def
        Let_def)
  from upload_csv_data_imports_every_row [of False 7 _ _ _ _ "[]"] e
  show ?thesis by (simp add: digit_char_def)
qed



text \<open>
  The lookup in the loop relies on that autoflush. In a session configured without it
  the lookup for the second row does not see the Product staged for the first, a second
  Product with the same product_id is staged, the commit is rejected by the unique
  index, and the import ends in the 400 error with nothing stored.
\<close>

lemma upload_csv_data_duplicate_product_without_autoflush:
  "upload_csv_data False 7
       (Inr [\<lparr>row_product_id = ''P1'', row_score = Num 4, row_comment = Some ''x''\<rparr>,
             \<lparr>row_product_id = ''P1'', row_score = Num 5, row_comment = None\<rparr>])
       \<lparr>products = [], feedback_entries = [], commits = 0\<rparr>
     = (Inl (HTTPException 400 (''Error processing CSV: '' @ str_exn (IntegrityError ''P1''))),
        \<lparr>products = [], feedback_entries = [], commits = 0\<rparr>)"
  by (simp add: upload_csv_data_def upload_try_def
        query_product_first_def autoflush_def flush_def new_session_def commit_def add_def
        insert_product_def insert_feedback_def rollback_def close_def next_id_def
        Let_def)

end
